theory Spec2Isabelle
  imports Complex_Main "HOL-Library.Sublist"
begin

section \<open>Strings\<close>

text \<open>
  A JavaScript string is modelled as a HOL \<open>string\<close> whose characters are the
  code units below 256 (ASCII and Latin-1). On these, \<open>String.prototype.toLowerCase\<close>
  maps \<open>A\<close>..\<open>Z\<close> and the upper-case letters \<open>0xC0\<close>..\<open>0xDE\<close> (without the
  multiplication sign \<open>0xD7\<close>) to the code unit 32 above, and keeps every other one.
\<close>

definition toLowerCase_char :: "char \<Rightarrow> char" where
  "toLowerCase_char c =
     (let n = (of_char c :: nat)
      in if (65 \<le> n \<and> n \<le> 90) \<or> (192 \<le> n \<and> n \<le> 222 \<and> n \<noteq> 215)
         then char_of (n + 32) else c)"

definition toLowerCase :: "string \<Rightarrow> string" where
  "toLowerCase s = map toLowerCase_char s"

text \<open>\<open>t.includes(k)\<close>: \<open>k\<close> occurs in \<open>t\<close> as a contiguous substring.\<close>

fun str_includes :: "string \<Rightarrow> string \<Rightarrow> bool" where
  "str_includes [] k = (k = [])"
| "str_includes (c # cs) k = (prefix k (c # cs) \<or> str_includes cs k)"

text \<open>Decimal rendering of a number inside a template literal.\<close>

definition digit_char :: "nat \<Rightarrow> char" where
  "digit_char d = char_of (48 + d)"

fun show_nat :: "nat \<Rightarrow> string" where
  "show_nat n = (if n < 10 then [digit_char n] else show_nat (n div 10) @ [digit_char (n mod 10)])"

definition show_int :: "int \<Rightarrow> string" where
  "show_int i = (if i < 0 then CHR ''-'' # show_nat (nat (- i)) else show_nat (nat i))"


section \<open>Data model (types.ts)\<close>

text \<open>
  The interfaces of \<open>types.ts\<close> describe what the application expects; the values
  themselves come out of \<open>JSON.parse\<close> unchecked, so a property the backend left out
  is \<open>undefined\<close> at run time. Every property that can be missing is an \<open>option\<close>.
  The properties \<open>type\<close> and \<open>value\<close> of a component and the properties \<open>id\<close> are
  renamed, since these words are taken in Isabelle.
\<close>

record SchematicComponent =
  designator :: "string option"
  comp_type :: "string option"
  comp_value :: "string option"
  comp_notes :: "string option"
  boundingBox :: "real list option"
  icon :: "string option"

record FunctionalBlock =
  block_name :: "string option"
  description :: "string option"
  componentsInvolved :: "string list option"

record Net =
  net_id :: string
  connectedPins :: "string list"

text \<open>The object that \<open>JSON.parse\<close> yields for an extraction response.\<close>

record parsed_analysis =
  p_title :: "string option"
  p_overview :: "string option"
  p_components :: "SchematicComponent list option"
  p_functionalBlocks :: "FunctionalBlock list option"
  p_connectivityLogic :: "string option"
  p_netlist :: "Net list option"
  p_potentialIssues :: "string list option"

text \<open>
  The analysis that \<open>analyzeSchematicImage\<close> returns: \<open>components\<close> and \<open>netlist\<close>
  are always there (the first was mapped over, the second is backfilled), the
  other properties are whatever the response held.
\<close>

record SchematicAnalysis =
  title :: "string option"
  overview :: "string option"
  components :: "SchematicComponent list"
  functionalBlocks :: "FunctionalBlock list option"
  connectivityLogic :: "string option"
  netlist :: "Net list"
  potentialIssues :: "string list option"

record PageResult =
  page_id :: string
  pageNumber :: int
  image :: string
  analysis :: SchematicAnalysis

datatype AnalysisStatus =
  S_idle | S_rendering_pdf | S_filtering | S_analyzing | S_complete | S_error


section \<open>Errors\<close>

text \<open>
  A thrown value. \<open>Error m\<close> is an error object with message \<open>m\<close>, thrown by the
  code itself or by the backend client. \<open>TypeErrorReading p\<close> is the engine's error for
  reading property \<open>p\<close> of \<open>undefined\<close>, and \<open>SyntaxErrorJSON m\<close> is the error of
  \<open>JSON.parse\<close> with the engine's message \<open>m\<close>.
\<close>

datatype js_error =
  Error string
  | TypeErrorReading string
  | SyntaxErrorJSON string

text \<open>
  \<open>err.message\<close>. The wording of the engine's own message for a read on
  \<open>undefined\<close> is V8's.
\<close>

fun message :: "js_error \<Rightarrow> string" where
  "message (Error m) = m"
| "message (TypeErrorReading p) =
     ''Cannot read properties of undefined (reading '' @ [CHR 0x27] @ p @ [CHR 0x27] @ '')''"
| "message (SyntaxErrorJSON m) = m"


section \<open>Icon mapping (geminiService.ts, mapTypeToIcon)\<close>

definition mapTypeToIcon :: "string \<Rightarrow> string" where
  "mapTypeToIcon type' =
     (let t = toLowerCase type' in
      if str_includes t ''resistor'' then ''resistor''
      else if str_includes t ''cap'' then ''capacitor''
      else if str_includes t ''induct'' \<or> str_includes t ''coil'' then ''inductor''
      else if str_includes t ''diode'' \<or> str_includes t ''led'' \<or> str_includes t ''rectifier''
        then ''diode''
      else if str_includes t ''transistor'' \<or> str_includes t ''fet'' \<or> str_includes t ''bjt''
              \<or> str_includes t ''igbt''
        then ''transistor''
      else if str_includes t ''ic'' \<or> str_includes t ''chip'' \<or> str_includes t ''processor''
              \<or> str_includes t ''controller'' \<or> str_includes t ''op-amp''
              \<or> str_includes t ''opamp''
        then ''chip''
      else if str_includes t ''switch'' \<or> str_includes t ''button'' \<or> str_includes t ''relay''
        then ''switch''
      else if str_includes t ''conn'' \<or> str_includes t ''head'' \<or> str_includes t ''jack''
              \<or> str_includes t ''plug'' \<or> str_includes t ''socket''
        then ''connector''
      else if str_includes t ''gnd'' \<or> str_includes t ''ground'' then ''ground''
      else if str_includes t ''volt'' \<or> str_includes t ''sourc'' \<or> str_includes t ''batt''
              \<or> str_includes t ''cell'' \<or> str_includes t ''pwr'' \<or> str_includes t ''vcc''
        then ''power''
      else ''generic'')"

text \<open>
  The keyword priority table as the specification words it: an ordered list of
  categories, each with its keywords; the first category one of whose keywords occurs
  in the lower-cased type wins, and \<open>generic\<close> is the default.
\<close>

definition icon_priority_table :: "(string list \<times> string) list" where
  "icon_priority_table =
     [([''resistor''], ''resistor''),
      ([''cap''], ''capacitor''),
      ([''induct'', ''coil''], ''inductor''),
      ([''diode'', ''led'', ''rectifier''], ''diode''),
      ([''transistor'', ''fet'', ''bjt'', ''igbt''], ''transistor''),
      ([''ic'', ''chip'', ''processor'', ''controller'', ''op-amp'', ''opamp''], ''chip''),
      ([''switch'', ''button'', ''relay''], ''switch''),
      ([''conn'', ''head'', ''jack'', ''plug'', ''socket''], ''connector''),
      ([''gnd'', ''ground''], ''ground''),
      ([''volt'', ''sourc'', ''batt'', ''cell'', ''pwr'', ''vcc''], ''power'')]"

fun first_match :: "string \<Rightarrow> (string list \<times> string) list \<Rightarrow> string" where
  "first_match t [] = ''generic''"
| "first_match t ((keywords, category) # rest) =
     (if list_ex (str_includes t) keywords then category else first_match t rest)"

definition spec_icon :: "string \<Rightarrow> string" where
  "spec_icon type' = first_match (toLowerCase type') icon_priority_table"


section \<open>Schematic extractor (geminiService.ts, analyzeSchematicImage)\<close>

text \<open>
  What the extraction backend does with one request, as far as the code can tell the
  cases apart: the call rejects with an error; the response has no text
  (\<open>response.text\<close> is \<open>undefined\<close> or empty); the text is not JSON, so that
  \<open>JSON.parse\<close> throws with the given message; or the text parses to an object.
\<close>

datatype extract_response =
  ExtractThrew js_error
  | ExtractNoText
  | ExtractUnparsable string
  | ExtractParsed parsed_analysis

text \<open>
  \<open>analysis.components.map(c => ({...c, icon: mapTypeToIcon(c.type)}))\<close>. A
  component without \<open>type\<close> makes \<open>type.toLowerCase()\<close> throw, and the whole map
  with it.
\<close>

fun map_icons :: "SchematicComponent list \<Rightarrow> js_error + SchematicComponent list" where
  "map_icons [] = Inr []"
| "map_icons (c # cs) =
     (case comp_type c of
        None \<Rightarrow> Inl (TypeErrorReading ''toLowerCase'')
      | Some t \<Rightarrow>
          (case map_icons cs of
             Inl e \<Rightarrow> Inl e
           | Inr cs' \<Rightarrow> Inr (c\<lparr>icon := Some (mapTypeToIcon t)\<rparr> # cs')))"

text \<open>
  The image is \<open>None\<close> when the caller passes \<open>undefined\<close> (an index outside the
  image array); then \<open>base64Image.split\<close> throws before any request is made. The
  \<open>catch\<close> block logs and rethrows, so every error leaves the function as it is.
  The content of the request does not influence the control flow and is left out.
\<close>

definition analyzeSchematicImage ::
  "extract_response \<Rightarrow> string option \<Rightarrow> js_error + SchematicAnalysis" where
  "analyzeSchematicImage response base64Image =
     (case base64Image of
        None \<Rightarrow> Inl (TypeErrorReading ''split'')
      | Some img \<Rightarrow>
          (case response of
             ExtractThrew e \<Rightarrow> Inl e
           | ExtractNoText \<Rightarrow> Inl (Error ''No response text generated'')
           | ExtractUnparsable m \<Rightarrow> Inl (SyntaxErrorJSON m)
           | ExtractParsed p \<Rightarrow>
               (case p_components p of
                  None \<Rightarrow> Inl (TypeErrorReading ''map'')
                | Some cs \<Rightarrow>
                    (case map_icons cs of
                       Inl e \<Rightarrow> Inl e
                     | Inr cs' \<Rightarrow>
                         Inr \<lparr> title = p_title p,
                               overview = p_overview p,
                               components = cs',
                               functionalBlocks = p_functionalBlocks p,
                               connectivityLogic = p_connectivityLogic p,
                               netlist = (case p_netlist p of None \<Rightarrow> [] | Some n \<Rightarrow> n),
                               potentialIssues = p_potentialIssues p \<rparr>))))"


section \<open>Page classifier (geminiService.ts, detectSchematicPages)\<close>

text \<open>
  What the classification backend does with one batch request: the call rejects; the
  response has no text; the text is malformed (\<open>JSON.parse\<close> throws, or the object has
  no array \<open>indices\<close>, so that \<open>result.indices.map\<close> throws); or the text parses to
  an object whose \<open>indices\<close> is a list of integers, as the response schema asks.
\<close>

datatype batch_response =
  BatchThrew js_error
  | BatchNoText
  | BatchMalformed js_error
  | BatchIndices "int list"

definition BATCH_SIZE :: nat where
  "BATCH_SIZE = 5"

text \<open>\<open>xs.slice(i, j)\<close> for \<open>0 \<le> i \<le> j\<close>.\<close>

definition slice :: "'a list \<Rightarrow> nat \<Rightarrow> nat \<Rightarrow> 'a list" where
  "slice xs i j = take (j - i) (drop i xs)"

text \<open>
  The loop over the batches. The state is \<open>validIndices\<close> and the log of the batches
  a request was sent for; the backend is a function of the number of the call, so that
  any sequence of responses can be supplied. Every failure inside the \<open>try\<close> is caught
  and leaves \<open>validIndices\<close> as it was; the indices of a good response are pushed only
  after all of them have been shifted.
\<close>

function detect_loop ::
  "(nat \<Rightarrow> batch_response) \<Rightarrow> string list \<Rightarrow> nat \<Rightarrow> int list \<times> string list list
     \<Rightarrow> int list \<times> string list list" where
  "detect_loop backend images i (validIndices, calls) =
     (if i < length images then
        let batch = slice images i (i + BATCH_SIZE);
            response = backend (length calls);
            validIndices' =
              (case response of
                 BatchIndices indices \<Rightarrow> validIndices @ map (\<lambda>idx. idx + int i) indices
               | _ \<Rightarrow> validIndices)
        in detect_loop backend images (i + BATCH_SIZE) (validIndices', calls @ [batch])
      else (validIndices, calls))"
  by pat_completeness auto
termination
  by (relation "measure (\<lambda>(backend, images, i, st). length images - i)")
     (auto simp: BATCH_SIZE_def)

definition detectSchematicPages ::
  "(nat \<Rightarrow> batch_response) \<Rightarrow> string list \<Rightarrow> int list \<times> string list list" where
  "detectSchematicPages backend images =
     (if length images = 1 then ([0], [])
      else detect_loop backend images 0 ([], []))"


text \<open>The number of iterations of the loop for \<open>n\<close> images, one batch each.\<close>

definition batch_count :: "nat \<Rightarrow> nat" where
  "batch_count n = (n + BATCH_SIZE - 1) div BATCH_SIZE"

text \<open>
  What the prompt asks of the backend for a batch of \<open>m\<close> images (ordered \<open>0\<close> to
  \<open>m - 1\<close>): positions of that batch. A good response, for the classifier, lists them
  in strictly ascending order. Nothing in the code checks this; it is a condition on the
  environment, used as a hypothesis only. \<open>answers_in_order\<close> says that every call
  the classifier makes for the images is answered so, or fails: for one image no call is
  made and nothing is asked of the backend, for any other number of images there is one
  call per batch.
\<close>

definition batch_local_ascending :: "nat \<Rightarrow> batch_response \<Rightarrow> bool" where
  "batch_local_ascending m response =
     (case response of
        BatchIndices indices \<Rightarrow>
          sorted_wrt (<) indices \<and> list_all (\<lambda>idx. 0 \<le> idx \<and> idx < int m) indices
      | _ \<Rightarrow> True)"

definition answers_in_order :: "(nat \<Rightarrow> batch_response) \<Rightarrow> string list \<Rightarrow> bool" where
  "answers_in_order backend images =
     (if length images = 1 then True
      else list_all (\<lambda>k. batch_local_ascending
                           (length (slice images (k * BATCH_SIZE) (k * BATCH_SIZE + BATCH_SIZE)))
                           (backend k))
             [0..<batch_count (length images)])"


section \<open>Pipeline orchestrator (App.tsx, handleFileSelected)\<close>

record app_state =
  status :: AnalysisStatus
  loadingMessage :: string
  error :: "string option"
  currentProjectName :: string
  currentProjectId :: "string option"
  pages :: "PageResult list"
  activePageIndex :: nat
  selectedComponent :: "string option"

record uploaded_file =
  file_name :: string
  file_type :: string

text \<open>
  Everything outside the code that a run depends on: what \<open>convertPdfToImages\<close>
  yields for the file (the page images, or the error it throws), the data URL that the
  \<open>FileReader\<close> yields, the two backends as functions of the number of the call, and
  the identifiers that \<open>crypto.randomUUID\<close> hands out.
\<close>

record environment =
  pdf_images :: "js_error + string list"
  data_url :: string
  classify_backend :: "nat \<Rightarrow> batch_response"
  extract_backend :: "nat \<Rightarrow> extract_response"
  randomUUID :: "nat \<Rightarrow> string"

text \<open>What a run did to the outside: the batches classified and the page indices
  the extractor was invoked for, both in order.\<close>

record run_trace =
  classify_calls :: "string list list"
  extract_calls :: "int list"

text \<open>\<open>xs[i]\<close> for an integer \<open>i\<close>: \<open>undefined\<close> outside the array.\<close>

definition js_index :: "'a list \<Rightarrow> int \<Rightarrow> 'a option" where
  "js_index xs i = (if 0 \<le> i \<and> i < int (length xs) then Some (xs ! nat i) else None)"

text \<open>\<open>name.replace(/\.[^/.]+$/, "")\<close>: a last dot followed by at least one
  character, none of them a slash, is cut off with what follows it.\<close>

definition strip_extension :: "string \<Rightarrow> string" where
  "strip_extension name =
     (let ext = takeWhile (\<lambda>c. c \<noteq> CHR ''.'') (rev name)
      in if length ext < length name \<and> ext \<noteq> [] \<and> CHR ''/'' \<notin> set ext
         then take (length name - length ext - 1) name
         else name)"

definition reset :: "app_state \<Rightarrow> app_state" where
  "reset s = s\<lparr> pages := [], activePageIndex := 0, status := S_idle, loadingMessage := [],
                currentProjectId := None, currentProjectName := [] \<rparr>"

text \<open>The \<open>catch\<close> block of \<open>handleFileSelected\<close>.\<close>

definition catch_error :: "app_state \<Rightarrow> js_error \<Rightarrow> app_state" where
  "catch_error s err =
     s\<lparr> error := Some (if message err = [] then ''Failed to process file.'' else message err),
        status := S_error \<rparr>"

text \<open>
  The loop over the classified indices. Its state is the local \<open>results\<close>, the
  loading message and the indices the extractor was invoked for. The \<open>i\<close>-th
  iteration receives the \<open>i\<close>-th extraction response and the \<open>i\<close>-th identifier:
  every earlier iteration made one request and drew one identifier, or the loop would
  have been left. The first error ends the loop; \<open>results\<close> is then dropped with the
  scope. An analysis only comes back for an image that is there.
\<close>

record loop_state =
  results :: "PageResult list"
  progress :: string
  invoked :: "int list"

fun analyze_loop ::
  "environment \<Rightarrow> string list \<Rightarrow> nat \<Rightarrow> int list \<Rightarrow> nat \<Rightarrow> loop_state
     \<Rightarrow> js_error option \<times> loop_state" where
  "analyze_loop env images n_total [] i st = (None, st)"
| "analyze_loop env images n_total (pageIdx # rest) i st =
     (let st1 = st\<lparr> progress := ''Analyzing Page '' @ show_int (pageIdx + 1) @ '' (''
                                   @ show_nat (i + 1) @ ''/'' @ show_nat n_total @ '')...'',
                     invoked := invoked st @ [pageIdx] \<rparr>;
          imageData = js_index images pageIdx
      in case analyzeSchematicImage (extract_backend env i) imageData of
           Inl err \<Rightarrow> (Some err, st1)
         | Inr a \<Rightarrow>
             (case imageData of
                None \<Rightarrow> (Some (TypeErrorReading ''split''), st1)
              | Some img \<Rightarrow>
                  analyze_loop env images n_total rest (i + 1)
                    (st1\<lparr> results := results st1 @
                       [\<lparr> page_id = randomUUID env i, pageNumber = pageIdx + 1,
                           image = img, analysis = a \<rparr>] \<rparr>)))"

text \<open>
  The page images of the file: those of the PDF, unless \<open>convertPdfToImages\<close>
  throws, or the one data URL of an image file.
\<close>

definition load_images :: "environment \<Rightarrow> uploaded_file \<Rightarrow> js_error + string list" where
  "load_images env file =
     (if file_type file = ''application/pdf'' then pdf_images env else Inr [data_url env])"

text \<open>
  One run, from the state before it to the state after it. The stages between are the
  ones the code sets on its way (\<open>rendering_pdf\<close>, \<open>filtering\<close>, \<open>analyzing\<close>); an
  error thrown at any stage reaches the \<open>catch\<close> block with the state of that stage.
\<close>

definition handleFileSelected ::
  "environment \<Rightarrow> uploaded_file \<Rightarrow> app_state \<Rightarrow> app_state \<times> run_trace" where
  "handleFileSelected env file s0 =
     (let s1 = (reset s0)\<lparr> error := None, selectedComponent := None,
                            currentProjectName := strip_extension (file_name file) \<rparr>;
          s2 = (if file_type file = ''application/pdf''
                then s1\<lparr> status := S_rendering_pdf, loadingMessage := ''Reading PDF Manual...'' \<rparr>
                else s1);
          loaded = load_images env file
      in case loaded of
           Inl err \<Rightarrow> (catch_error s2 err, \<lparr> classify_calls = [], extract_calls = [] \<rparr>)
         | Inr images \<Rightarrow>
             (let s3 = s2\<lparr> status := S_filtering,
                            loadingMessage := ''Scanning for schematics...'' \<rparr>;
                  detected = detectSchematicPages (classify_backend env) images;
                  schematicIndices = fst detected
              in if length schematicIndices = 0
                 then (catch_error s3
                         (Error ''No schematics or wiring diagrams detected in this file.''),
                       \<lparr> classify_calls = snd detected, extract_calls = [] \<rparr>)
                 else
                   (let s4 = s3\<lparr> status := S_analyzing,
                                  loadingMessage := ''Analyzing ''
                                    @ show_nat (length schematicIndices)
                                    @ '' schematic page(s)...'' \<rparr>;
                        looped = analyze_loop env images (length schematicIndices)
                                   schematicIndices 0
                                   \<lparr> results = [], progress = loadingMessage s4, invoked = [] \<rparr>;
                        st = snd looped;
                        s5 = s4\<lparr> loadingMessage := progress st \<rparr>;
                        trace = \<lparr> classify_calls = snd detected, extract_calls = invoked st \<rparr>
                    in case fst looped of
                         Some err \<Rightarrow> (catch_error s5 err, trace)
                       | None \<Rightarrow>
                           (s5\<lparr> pages := results st, activePageIndex := 0,
                                 status := S_complete \<rparr>, trace))))"


section \<open>Component table (ComponentList.tsx)\<close>

text \<open>
  The handlers compute the list they pass to \<open>onUpdate\<close>, which the result view
  stores as the page's \<open>components\<close>. The string-valued properties a row can write:
\<close>

datatype component_field = F_designator | F_type | F_value | F_notes | F_icon

fun set_field :: "component_field \<Rightarrow> string \<Rightarrow> SchematicComponent \<Rightarrow> SchematicComponent" where
  "set_field F_designator v c = c\<lparr>designator := Some v\<rparr>"
| "set_field F_type v c = c\<lparr>comp_type := Some v\<rparr>"
| "set_field F_value v c = c\<lparr>comp_value := Some v\<rparr>"
| "set_field F_notes v c = c\<lparr>comp_notes := Some v\<rparr>"
| "set_field F_icon v c = c\<lparr>icon := Some v\<rparr>"

text \<open>
  \<open>handleChange\<close> is called from the row of index \<open>index\<close>, so \<open>index\<close> is below the
  length. Beyond it JavaScript would leave holes in the array, which a list does not
  have; the model gives \<open>None\<close> there.
\<close>

definition handleChange ::
  "SchematicComponent list \<Rightarrow> nat \<Rightarrow> component_field \<Rightarrow> string
     \<Rightarrow> SchematicComponent list option" where
  "handleChange components' index field v =
     (if index < length components'
      then Some (components'[index := set_field field v (components' ! index)])
      else None)"

text \<open>\<open>components.filter((_, i) => i !== index)\<close>.\<close>

definition handleDelete :: "SchematicComponent list \<Rightarrow> nat \<Rightarrow> SchematicComponent list" where
  "handleDelete components' index =
     map snd (filter (\<lambda>(i, c). i \<noteq> index) (enumerate 0 components'))"

definition handleAdd :: "SchematicComponent list \<Rightarrow> SchematicComponent list" where
  "handleAdd components' =
     components' @
       [\<lparr> designator = Some (''C'' @ show_nat (length components' + 1)),
           comp_type = Some ''Unknown'',
           comp_value = Some ''?'',
           comp_notes = Some [],
           boundingBox = None,
           icon = Some ''generic'' \<rparr>]"


section \<open>Example inputs\<close>

definition example_image :: string where
  "example_image = ''data:image/png;base64,AAAA''"

definition example_components :: "SchematicComponent list" where
  "example_components =
     [\<lparr> designator = Some ''U1'', comp_type = Some ''Op-Amp'', comp_value = Some ''LM358'',
         comp_notes = None, boundingBox = Some [1/10, 1/5, 3/10, 2/5], icon = None \<rparr>,
      \<lparr> designator = Some ''R1'', comp_type = Some ''10k Resistor'', comp_value = None,
         comp_notes = Some ''pull-up'', boundingBox = None, icon = Some ''chip'' \<rparr>,
      \<lparr> designator = Some ''X1'', comp_type = Some ''Widget'', comp_value = None,
         comp_notes = None, boundingBox = None, icon = None \<rparr>]"

definition example_components_with_icons :: "SchematicComponent list" where
  "example_components_with_icons =
     [\<lparr> designator = Some ''U1'', comp_type = Some ''Op-Amp'', comp_value = Some ''LM358'',
         comp_notes = None, boundingBox = Some [1/10, 1/5, 3/10, 2/5], icon = Some ''chip'' \<rparr>,
      \<lparr> designator = Some ''R1'', comp_type = Some ''10k Resistor'', comp_value = None,
         comp_notes = Some ''pull-up'', boundingBox = None, icon = Some ''resistor'' \<rparr>,
      \<lparr> designator = Some ''X1'', comp_type = Some ''Widget'', comp_value = None,
         comp_notes = None, boundingBox = None, icon = Some ''generic'' \<rparr>]"

text \<open>A response with every property.\<close>

definition example_parsed :: parsed_analysis where
  "example_parsed =
     \<lparr> p_title = Some ''Amplifier'', p_overview = Some ''A gain stage'',
       p_components = Some example_components,
       p_functionalBlocks = Some [\<lparr> block_name = Some ''Gain'', description = Some ''x10'',
                                    componentsInvolved = Some [''U1'', ''R1''] \<rparr>],
       p_connectivityLogic = Some ''IN to U1 to OUT'',
       p_netlist = Some [\<lparr> net_id = ''VCC'', connectedPins = [''U1-8'', ''R1-1''] \<rparr>],
       p_potentialIssues = Some [''No decoupling''] \<rparr>"

definition example_analysis :: SchematicAnalysis where
  "example_analysis =
     \<lparr> title = Some ''Amplifier'', overview = Some ''A gain stage'',
       components = example_components_with_icons,
       functionalBlocks = Some [\<lparr> block_name = Some ''Gain'', description = Some ''x10'',
                                  componentsInvolved = Some [''U1'', ''R1''] \<rparr>],
       connectivityLogic = Some ''IN to U1 to OUT'',
       netlist = [\<lparr> net_id = ''VCC'', connectedPins = [''U1-8'', ''R1-1''] \<rparr>],
       potentialIssues = Some [''No decoupling''] \<rparr>"

text \<open>A response that holds \<open>components\<close> and nothing else.\<close>

definition example_parsed_sparse :: parsed_analysis where
  "example_parsed_sparse =
     \<lparr> p_title = None, p_overview = None, p_components = Some example_components,
       p_functionalBlocks = None, p_connectivityLogic = None, p_netlist = None,
       p_potentialIssues = None \<rparr>"

definition example_analysis_sparse :: SchematicAnalysis where
  "example_analysis_sparse =
     \<lparr> title = None, overview = None, components = example_components_with_icons,
       functionalBlocks = None, connectivityLogic = None, netlist = [],
       potentialIssues = None \<rparr>"

text \<open>A response without \<open>components\<close>, and one whose only component has no
  \<open>type\<close>.\<close>

definition example_parsed_no_components :: parsed_analysis where
  "example_parsed_no_components = example_parsed\<lparr> p_components := None \<rparr>"

definition example_parsed_untyped :: parsed_analysis where
  "example_parsed_untyped =
     example_parsed\<lparr> p_components :=
       Some [\<lparr> designator = Some ''R9'', comp_type = None, comp_value = Some ''1k'',
               comp_notes = None, boundingBox = None, icon = None \<rparr>] \<rparr>"


text \<open>Eight pages, hence two batches, and backends that answer them.\<close>

definition example_pages :: "string list" where
  "example_pages = [''p0'', ''p1'', ''p2'', ''p3'', ''p4'', ''p5'', ''p6'', ''p7'']"

definition example_two_pages :: "string list" where
  "example_two_pages = [''p0'', ''p1'']"

definition example_backend :: "nat \<Rightarrow> batch_response" where
  "example_backend k = (if k = 0 then BatchIndices [1, 4] else BatchIndices [])"

definition example_backend_both :: "nat \<Rightarrow> batch_response" where
  "example_backend_both k = (if k = 0 then BatchIndices [1, 4] else BatchIndices [0, 2])"

definition example_backend_failing :: "nat \<Rightarrow> batch_response" where
  "example_backend_failing k =
     (if k = 0 then BatchThrew (Error ''503'') else BatchIndices [0, 2])"

definition example_backend_unordered :: "nat \<Rightarrow> batch_response" where
  "example_backend_unordered k = BatchIndices [1, 0, 0, 5]"


text \<open>Runs: a PDF of the eight pages, a state left by an earlier run, and
  environments for it.\<close>

definition example_pdf :: uploaded_file where
  "example_pdf = \<lparr> file_name = ''manual.pdf'', file_type = ''application/pdf'' \<rparr>"

definition example_state :: app_state where
  "example_state =
     \<lparr> status = S_complete, loadingMessage = ''Analyzing Page 1 (1/1)...'', error = None,
       currentProjectName = ''old'', currentProjectId = Some ''project-1'',
       pages = [\<lparr> page_id = ''page-1'', pageNumber = 1, image = example_image,
                   analysis = example_analysis \<rparr>],
       activePageIndex = 0, selectedComponent = Some ''U1'' \<rparr>"

definition example_env :: environment where
  "example_env =
     \<lparr> pdf_images = Inr example_pages, data_url = example_image,
       classify_backend = example_backend,
       extract_backend = (\<lambda>k. ExtractParsed example_parsed),
       randomUUID = (\<lambda>k. ''uuid-'' @ show_nat k) \<rparr>"

definition example_backend_reversed :: "nat \<Rightarrow> batch_response" where
  "example_backend_reversed k = (if k = 0 then BatchIndices [4, 1] else BatchIndices [])"

definition example_env_reversed :: environment where
  "example_env_reversed = example_env\<lparr> classify_backend := example_backend_reversed \<rparr>"

definition example_env_second_fails :: environment where
  "example_env_second_fails =
     example_env\<lparr> extract_backend :=
       (\<lambda>k. if k = 1 then ExtractThrew (Error ''quota exceeded'')
            else ExtractParsed example_parsed) \<rparr>"

definition example_env_silent_failure :: environment where
  "example_env_silent_failure =
     example_env\<lparr> extract_backend :=
       (\<lambda>k. if k = 1 then ExtractThrew (Error []) else ExtractParsed example_parsed) \<rparr>"

definition example_env_nothing_found :: environment where
  "example_env_nothing_found = example_env\<lparr> classify_backend := (\<lambda>k. BatchIndices []) \<rparr>"


text \<open>Two capacitors, as a page may list them.\<close>

definition example_capacitors :: "SchematicComponent list" where
  "example_capacitors =
     [\<lparr> designator = Some ''C1'', comp_type = Some ''Capacitor'', comp_value = Some ''100nF'',
         comp_notes = None, boundingBox = None, icon = Some ''capacitor'' \<rparr>,
      \<lparr> designator = Some ''C2'', comp_type = Some ''Capacitor'', comp_value = Some ''10uF'',
         comp_notes = None, boundingBox = None, icon = Some ''capacitor'' \<rparr>]"


section \<open>The extractor: facts\<close>

declare show_nat.simps [simp del]

lemma str_includes_sublist: "str_includes t k \<longleftrightarrow> sublist k t"
  by (induction t) (auto simp: sublist_Cons_right)

lemma mapTypeToIcon_spec_icon: "mapTypeToIcon ty = spec_icon ty"
  by (simp add: mapTypeToIcon_def spec_icon_def icon_priority_table_def Let_def)

lemma map_icons_Inr:
  "map_icons cs = Inr cs' \<Longrightarrow>
     list_all2 (\<lambda>c c'. \<exists>t. comp_type c = Some t \<and> c' = c\<lparr>icon := Some (mapTypeToIcon t)\<rparr>)
       cs cs'"
  by (induction cs arbitrary: cs') (auto split: option.splits sum.splits)

lemma map_icons_total:
  "\<forall>c\<in>set cs. comp_type c \<noteq> None \<Longrightarrow> \<exists>cs'. map_icons cs = Inr cs'"
  by (induction cs) (auto split: option.splits sum.splits)

lemma map_icons_fails:
  "c \<in> set cs \<Longrightarrow> comp_type c = None \<Longrightarrow>
     map_icons cs = Inl (TypeErrorReading ''toLowerCase'')"
  by (induction cs) (auto split: option.splits sum.splits)

lemma analyze_Inr:
  "analyzeSchematicImage response img = Inr a \<Longrightarrow>
     \<exists>p cs cs' i. response = ExtractParsed p \<and> img = Some i \<and> p_components p = Some cs
       \<and> map_icons cs = Inr cs'
       \<and> a = \<lparr> title = p_title p, overview = p_overview p, components = cs',
               functionalBlocks = p_functionalBlocks p,
               connectivityLogic = p_connectivityLogic p,
               netlist = (case p_netlist p of None \<Rightarrow> [] | Some n \<Rightarrow> n),
               potentialIssues = p_potentialIssues p \<rparr>"
  by (auto simp: analyzeSchematicImage_def
           split: option.splits extract_response.splits sum.splits)

lemma example_parsed_analysis:
  "analyzeSchematicImage (ExtractParsed example_parsed) (Some example_image) =
     Inr example_analysis"
  by code_simp

lemma example_parsed_sparse_analysis:
  "analyzeSchematicImage (ExtractParsed example_parsed_sparse) (Some example_image) =
     Inr example_analysis_sparse"
  by code_simp

lemma example_components_typed: "\<forall>c\<in>set example_components. comp_type c \<noteq> None"
  by (simp add: example_components_def)


subsection \<open>Icon of a component\<close>

text \<open>
  Claim C6. The icon is a function of the type string alone: \<open>mapTypeToIcon\<close> agrees
  with the keyword priority table read top to bottom, first matching category winning,
  on the lower-cased type, and \<open>generic\<close> when no keyword occurs. Every component of
  an analysis the extractor returns has a type and carries the icon of that type. The
  types \<open>Op-Amp\<close>, \<open>10k Resistor\<close> and \<open>Widget\<close> give \<open>chip\<close>, \<open>resistor\<close>
  and \<open>generic\<close>.
\<close>

theorem icon_from_type_priority:
  "mapTypeToIcon ty = spec_icon ty
   \<and> (analyzeSchematicImage response img = Inr a \<longrightarrow>
        (\<forall>c\<in>set (components a). \<exists>t. comp_type c = Some t \<and> icon c = Some (spec_icon t)))
   \<and> mapTypeToIcon ''Op-Amp'' = ''chip''
   \<and> mapTypeToIcon ''10k Resistor'' = ''resistor''
   \<and> mapTypeToIcon ''Widget'' = ''generic''"
proof -
  have table: "mapTypeToIcon ty = spec_icon ty"
    by (rule mapTypeToIcon_spec_icon)
  have derived: "\<forall>c\<in>set (components a). \<exists>t. comp_type c = Some t \<and> icon c = Some (spec_icon t)"
    if ok: "analyzeSchematicImage response img = Inr a"
  proof
    fix c' assume mem: "c' \<in> set (components a)"
    from analyze_Inr [OF ok] obtain cs where
      mapped: "map_icons cs = Inr (components a)"
      by auto
    from map_icons_Inr [OF mapped] mem obtain c t where
      "comp_type c = Some t" and "c' = c\<lparr>icon := Some (mapTypeToIcon t)\<rparr>"
      by (auto simp: list_all2_conv_all_nth in_set_conv_nth)
    then show "\<exists>t. comp_type c' = Some t \<and> icon c' = Some (spec_icon t)"
      by (simp add: mapTypeToIcon_spec_icon)
  qed
  have e1: "mapTypeToIcon ''Op-Amp'' = ''chip''" by code_simp
  have e2: "mapTypeToIcon ''10k Resistor'' = ''resistor''" by code_simp
  have e3: "mapTypeToIcon ''Widget'' = ''generic''" by code_simp
  from table derived e1 e2 e3 show ?thesis by blast
qed

theorem icon_from_type_priority_witness:
  "analyzeSchematicImage (ExtractParsed example_parsed) (Some example_image) =
     Inr example_analysis
   \<and> list_all (\<lambda>c. \<exists>t. comp_type c = Some t \<and> icon c = Some (spec_icon t))
         (components example_analysis)
   \<and> mapTypeToIcon ''Status LED'' = spec_icon ''Status LED''"
  using icon_from_type_priority
          [of "''Status LED''" "ExtractParsed example_parsed" "Some example_image"
              example_analysis]
        example_parsed_analysis
  unfolding list_all_iff by blast

subsection \<open>Properties missing from the response\<close>

text \<open>
  Claim C2, as stated, fails: a response without \<open>title\<close>, \<open>overview\<close>,
  \<open>functionalBlocks\<close> and \<open>connectivityLogic\<close> is accepted. The extractor returns
  an analysis in which these are still missing.
\<close>

theorem missing_title_accepted:
  "p_title example_parsed_sparse = None
   \<and> p_overview example_parsed_sparse = None
   \<and> p_functionalBlocks example_parsed_sparse = None
   \<and> p_connectivityLogic example_parsed_sparse = None
   \<and> analyzeSchematicImage (ExtractParsed example_parsed_sparse) (Some example_image) =
       Inr example_analysis_sparse
   \<and> title example_analysis_sparse = None"
  using example_parsed_sparse_analysis
  by (simp add: example_parsed_sparse_def example_analysis_sparse_def)

text \<open>
  Claim C2, amended. Of the properties of the response only \<open>components\<close> is needed:
  without it the extraction fails, and it fails as well when a component has no
  \<open>type\<close>. When \<open>components\<close> is there and every component has a type, the
  extraction succeeds whatever else is missing: \<open>title\<close>, \<open>overview\<close>,
  \<open>functionalBlocks\<close>, \<open>connectivityLogic\<close> and \<open>potentialIssues\<close> are returned
  as they came, missing if they were missing, and a missing \<open>netlist\<close> is returned as
  the empty list.
\<close>

theorem extraction_missing_fields:
  "(p_components p = None \<longrightarrow>
      analyzeSchematicImage (ExtractParsed p) (Some img) = Inl (TypeErrorReading ''map''))
   \<and> (\<forall>cs. p_components p = Some cs \<and> (\<exists>c\<in>set cs. comp_type c = None) \<longrightarrow>
        analyzeSchematicImage (ExtractParsed p) (Some img) =
          Inl (TypeErrorReading ''toLowerCase''))
   \<and> (\<forall>cs. p_components p = Some cs \<and> (\<forall>c\<in>set cs. comp_type c \<noteq> None) \<longrightarrow>
        (\<exists>a. analyzeSchematicImage (ExtractParsed p) (Some img) = Inr a
           \<and> title a = p_title p
           \<and> overview a = p_overview p
           \<and> functionalBlocks a = p_functionalBlocks p
           \<and> connectivityLogic a = p_connectivityLogic p
           \<and> potentialIssues a = p_potentialIssues p
           \<and> netlist a = (case p_netlist p of None \<Rightarrow> [] | Some n \<Rightarrow> n)))"
proof (intro conjI allI impI)
  assume "p_components p = None"
  then show "analyzeSchematicImage (ExtractParsed p) (Some img) = Inl (TypeErrorReading ''map'')"
    by (simp add: analyzeSchematicImage_def)
next
  fix cs
  assume h: "p_components p = Some cs \<and> (\<exists>c\<in>set cs. comp_type c = None)"
  then have "map_icons cs = Inl (TypeErrorReading ''toLowerCase'')"
    by (blast intro: map_icons_fails)
  with h show "analyzeSchematicImage (ExtractParsed p) (Some img) =
                 Inl (TypeErrorReading ''toLowerCase'')"
    by (simp add: analyzeSchematicImage_def)
next
  fix cs
  assume h: "p_components p = Some cs \<and> (\<forall>c\<in>set cs. comp_type c \<noteq> None)"
  then obtain cs' where "map_icons cs = Inr cs'"
    using map_icons_total by blast
  with h show "\<exists>a. analyzeSchematicImage (ExtractParsed p) (Some img) = Inr a
           \<and> title a = p_title p
           \<and> overview a = p_overview p
           \<and> functionalBlocks a = p_functionalBlocks p
           \<and> connectivityLogic a = p_connectivityLogic p
           \<and> potentialIssues a = p_potentialIssues p
           \<and> netlist a = (case p_netlist p of None \<Rightarrow> [] | Some n \<Rightarrow> n)"
    by (simp add: analyzeSchematicImage_def)
qed

theorem extraction_missing_fields_witness:
  "p_components example_parsed_no_components = None
   \<and> analyzeSchematicImage (ExtractParsed example_parsed_no_components) (Some example_image) =
       Inl (TypeErrorReading ''map'')
   \<and> (\<exists>cs. p_components example_parsed_untyped = Some cs \<and> (\<exists>c\<in>set cs. comp_type c = None))
   \<and> analyzeSchematicImage (ExtractParsed example_parsed_untyped) (Some example_image) =
       Inl (TypeErrorReading ''toLowerCase'')
   \<and> p_components example_parsed_sparse = Some example_components
   \<and> list_all (\<lambda>c. comp_type c \<noteq> None) example_components
   \<and> (\<exists>a. analyzeSchematicImage (ExtractParsed example_parsed_sparse) (Some example_image) =
            Inr a
          \<and> title a = None \<and> overview a = None \<and> functionalBlocks a = None
          \<and> connectivityLogic a = None \<and> potentialIssues a = None \<and> netlist a = [])"
proof -
  have none: "p_components example_parsed_no_components = None"
    by (simp add: example_parsed_no_components_def)
  have untyped: "\<exists>cs. p_components example_parsed_untyped = Some cs
                   \<and> (\<exists>c\<in>set cs. comp_type c = None)"
    by (simp add: example_parsed_untyped_def)
  have sparse: "p_components example_parsed_sparse = Some example_components"
    by (simp add: example_parsed_sparse_def)
  have rest: "p_title example_parsed_sparse = None" "p_overview example_parsed_sparse = None"
    "p_functionalBlocks example_parsed_sparse = None"
    "p_connectivityLogic example_parsed_sparse = None"
    "p_potentialIssues example_parsed_sparse = None" "p_netlist example_parsed_sparse = None"
    by (simp_all add: example_parsed_sparse_def)
  from extraction_missing_fields [of example_parsed_no_components example_image] none
  have first: "analyzeSchematicImage (ExtractParsed example_parsed_no_components)
                 (Some example_image) = Inl (TypeErrorReading ''map'')"
    by blast
  from extraction_missing_fields [of example_parsed_untyped example_image] untyped
  have second: "analyzeSchematicImage (ExtractParsed example_parsed_untyped)
                  (Some example_image) = Inl (TypeErrorReading ''toLowerCase'')"
    by blast
  from extraction_missing_fields [of example_parsed_sparse example_image] sparse
    example_components_typed
  have "\<exists>a. analyzeSchematicImage (ExtractParsed example_parsed_sparse) (Some example_image) =
              Inr a
           \<and> title a = p_title example_parsed_sparse
           \<and> overview a = p_overview example_parsed_sparse
           \<and> functionalBlocks a = p_functionalBlocks example_parsed_sparse
           \<and> connectivityLogic a = p_connectivityLogic example_parsed_sparse
           \<and> potentialIssues a = p_potentialIssues example_parsed_sparse
           \<and> netlist a = (case p_netlist example_parsed_sparse of None \<Rightarrow> [] | Some n \<Rightarrow> n)"
    by blast
  then have third: "\<exists>a. analyzeSchematicImage (ExtractParsed example_parsed_sparse)
                          (Some example_image) = Inr a
          \<and> title a = None \<and> overview a = None \<and> functionalBlocks a = None
          \<and> connectivityLogic a = None \<and> potentialIssues a = None \<and> netlist a = []"
    by (simp add: rest)
  from example_components_typed
  have typed: "list_all (\<lambda>c. comp_type c \<noteq> None) example_components"
    by (simp add: list_all_iff)
  from none first untyped second sparse typed third
  show ?thesis by blast
qed

subsection \<open>What the post-processing leaves alone\<close>

text \<open>
  Claim C10. When the extractor returns an analysis, the response was a parsed object
  with a component list; the returned list has the same length and order, every
  component in it has the designator, type, value, notes and bounding box it had, and
  differs from the parsed one in nothing but the icon; title, overview, functional
  blocks, connectivity logic and potential issues are the parsed ones, and so is the
  netlist when the response had one.
\<close>

theorem postprocessing_frame:
  assumes ok: "analyzeSchematicImage response img = Inr a"
  shows "\<exists>p cs. response = ExtractParsed p \<and> p_components p = Some cs
           \<and> length (components a) = length cs
           \<and> (\<forall>i<length cs.
                  designator (components a ! i) = designator (cs ! i)
                \<and> comp_type (components a ! i) = comp_type (cs ! i)
                \<and> comp_value (components a ! i) = comp_value (cs ! i)
                \<and> comp_notes (components a ! i) = comp_notes (cs ! i)
                \<and> boundingBox (components a ! i) = boundingBox (cs ! i)
                \<and> (components a ! i)\<lparr>icon := icon (cs ! i)\<rparr> = cs ! i)
           \<and> title a = p_title p
           \<and> overview a = p_overview p
           \<and> functionalBlocks a = p_functionalBlocks p
           \<and> connectivityLogic a = p_connectivityLogic p
           \<and> potentialIssues a = p_potentialIssues p
           \<and> (\<forall>n. p_netlist p = Some n \<longrightarrow> netlist a = n)"
proof -
  from analyze_Inr [OF ok] obtain p cs cs' where
    r: "response = ExtractParsed p" and c: "p_components p = Some cs" and
    m: "map_icons cs = Inr cs'" and
    a: "a = \<lparr> title = p_title p, overview = p_overview p, components = cs',
             functionalBlocks = p_functionalBlocks p,
             connectivityLogic = p_connectivityLogic p,
             netlist = (case p_netlist p of None \<Rightarrow> [] | Some n \<Rightarrow> n),
             potentialIssues = p_potentialIssues p \<rparr>"
    by blast
  from map_icons_Inr [OF m] have
    len: "length cs' = length cs" and
    each: "\<And>i. i < length cs \<Longrightarrow> \<exists>t. cs' ! i = (cs ! i)\<lparr>icon := Some (mapTypeToIcon t)\<rparr>"
    by (auto simp: list_all2_conv_all_nth)
  have fields: "designator (cs' ! i) = designator (cs ! i)
                \<and> comp_type (cs' ! i) = comp_type (cs ! i)
                \<and> comp_value (cs' ! i) = comp_value (cs ! i)
                \<and> comp_notes (cs' ! i) = comp_notes (cs ! i)
                \<and> boundingBox (cs' ! i) = boundingBox (cs ! i)
                \<and> (cs' ! i)\<lparr>icon := icon (cs ! i)\<rparr> = cs ! i" if "i < length cs" for i
    using each [OF that] by auto
  show ?thesis
    using r c len fields by (simp add: a)
qed

theorem postprocessing_frame_witness:
  "analyzeSchematicImage (ExtractParsed example_parsed) (Some example_image) =
     Inr example_analysis
   \<and> (\<exists>p cs. ExtractParsed example_parsed = ExtractParsed p \<and> p_components p = Some cs
           \<and> length (components example_analysis) = length cs
           \<and> (\<forall>i<length cs.
                  designator (components example_analysis ! i) = designator (cs ! i)
                \<and> comp_type (components example_analysis ! i) = comp_type (cs ! i)
                \<and> comp_value (components example_analysis ! i) = comp_value (cs ! i)
                \<and> comp_notes (components example_analysis ! i) = comp_notes (cs ! i)
                \<and> boundingBox (components example_analysis ! i) = boundingBox (cs ! i)
                \<and> (components example_analysis ! i)\<lparr>icon := icon (cs ! i)\<rparr> = cs ! i)
           \<and> title example_analysis = p_title p
           \<and> overview example_analysis = p_overview p
           \<and> functionalBlocks example_analysis = p_functionalBlocks p
           \<and> connectivityLogic example_analysis = p_connectivityLogic p
           \<and> potentialIssues example_analysis = p_potentialIssues p
           \<and> (\<forall>n. p_netlist p = Some n \<longrightarrow> netlist example_analysis = n))"
  using postprocessing_frame [OF example_parsed_analysis] example_parsed_analysis
  by (rule conjI [rotated])


section \<open>The classifier: facts\<close>

subsection \<open>The loop in closed form\<close>

declare detect_loop.simps [simp del]

lemma batch_count_eq: "batch_count n = (n + 4) div 5"
  by (simp add: batch_count_def BATCH_SIZE_def)

lemma batch_count_0: "batch_count 0 = 0"
  by (simp add: batch_count_eq)

lemma div5_full: "(5::nat) \<le> m \<Longrightarrow> (m + 4) div 5 = Suc ((m - 5 + 4) div 5)"
proof -
  assume "5 \<le> m"
  then have "m + 4 = (m - 5 + 4) + 5" by simp
  then have "(m + 4) div 5 = ((m - 5 + 4) + 5) div 5" by (rule arg_cong)
  also have "\<dots> = Suc ((m - 5 + 4) div 5)" by simp
  finally show ?thesis .
qed

lemma div5_part: "0 < m \<Longrightarrow> m < (5::nat) \<Longrightarrow> (m + 4) div 5 = Suc 0"
  by (rule div_nat_eqI) simp_all

lemma batch_count_step:
  assumes "i < n"
  shows "batch_count (n - i) = Suc (batch_count (n - (i + BATCH_SIZE)))"
proof (cases "5 \<le> n - i")
  case True
  from div5_full [OF True] show ?thesis
    by (simp only: batch_count_eq BATCH_SIZE_def diff_diff_left)
next
  case False
  with assms have "0 < n - i" "n - i < 5" "n - (i + 5) = 0" by simp_all
  with div5_part [of "n - i"] show ?thesis
    by (simp add: batch_count_eq BATCH_SIZE_def)
qed

lemma upt_Suc_shift: "[0..<Suc m] = 0 # map Suc [0..<m]"
  by (simp only: map_Suc_upt upt_conv_Cons [OF zero_less_Suc])

lemma detect_loop_closed:
  "detect_loop backend images i (vs, calls) =
     (vs @ concat (map (\<lambda>j. case backend (length calls + j) of
                               BatchIndices xs \<Rightarrow> map (\<lambda>idx. idx + int (i + j * BATCH_SIZE)) xs
                             | _ \<Rightarrow> [])
                       [0..<batch_count (length images - i)]),
      calls @ map (\<lambda>j. slice images (i + j * BATCH_SIZE) (i + j * BATCH_SIZE + BATCH_SIZE))
                  [0..<batch_count (length images - i)])"
proof (induction "length images - i" arbitrary: i vs calls rule: less_induct)
  case less
  show ?case
  proof (cases "i < length images")
    case False
    then show ?thesis by (subst detect_loop.simps) (simp add: batch_count_0)
  next
    case True
    then have smaller: "length images - (i + BATCH_SIZE) < length images - i"
      by (simp add: BATCH_SIZE_def)
    note ih = less.hyps [OF smaller]
    have shift: "length (calls @ [b]) + j = length calls + Suc j" for b :: "string list" and j
      by simp
    have off: "i + BATCH_SIZE + j * BATCH_SIZE = i + Suc j * BATCH_SIZE" for j
      by simp
    have unroll: "detect_loop backend images i (vs, calls) =
        detect_loop backend images (i + BATCH_SIZE)
          ((case backend (length calls) of
              BatchIndices indices \<Rightarrow> vs @ map (\<lambda>idx. idx + int i) indices
            | _ \<Rightarrow> vs),
           calls @ [slice images i (i + BATCH_SIZE)])"
      using True by (subst detect_loop.simps) (simp only: Let_def if_True)
    show ?thesis
      unfolding unroll ih shift off batch_count_step [OF True] upt_Suc_shift
      by (simp add: comp_def split: batch_response.splits)
  qed
qed

lemma detect_closed:
  assumes "length images \<noteq> 1"
  shows "detectSchematicPages backend images =
     (concat (map (\<lambda>k. case backend k of
                         BatchIndices xs \<Rightarrow> map (\<lambda>idx. idx + int (k * BATCH_SIZE)) xs
                       | _ \<Rightarrow> [])
                  [0..<batch_count (length images)]),
      map (\<lambda>k. slice images (k * BATCH_SIZE) (k * BATCH_SIZE + BATCH_SIZE))
          [0..<batch_count (length images)])"
  using assms
  by (simp add: detectSchematicPages_def detect_loop_closed cong: batch_response.case_cong)

lemma sorted_wrt_concat_blocks:
  fixes f :: "nat \<Rightarrow> int list"
  assumes "\<And>k. k < m \<Longrightarrow> sorted_wrt (<) (f k)"
    and "\<And>k x. k < m \<Longrightarrow> x \<in> set (f k) \<Longrightarrow> int (k * b) \<le> x \<and> x < int (Suc k * b)"
  shows "sorted_wrt (<) (concat (map f [0..<m]))"
  using assms
proof (induction m)
  case 0
  show ?case by simp
next
  case (Suc m)
  have earlier: "sorted_wrt (<) (concat (map f [0..<m]))"
  proof (rule Suc.IH)
    fix k assume "k < m"
    then have k: "k < Suc m" by simp
    from Suc.prems(1) [OF k] show "sorted_wrt (<) (f k)" .
    fix x assume "x \<in> set (f k)"
    with Suc.prems(2) [OF k] show "int (k * b) \<le> x \<and> x < int (Suc k * b)" .
  qed
  have last: "sorted_wrt (<) (f m)"
    by (simp add: Suc.prems)
  have cross: "x < y" if x: "x \<in> set (concat (map f [0..<m]))" and y: "y \<in> set (f m)" for x y
  proof -
    from x obtain k where k: "k < m" and xk: "x \<in> set (f k)" by auto
    from k have "k < Suc m" by simp
    from Suc.prems(2) [OF this xk] have "x < int (Suc k * b)" by simp
    also from k have "Suc k * b \<le> m * b" by (simp add: Suc_le_eq [symmetric] mult_le_mono1 del: mult_Suc)
    then have "int (Suc k * b) \<le> int (m * b)" by (simp only: of_nat_le_iff)
    also from Suc.prems(2) [of m y] y have "int (m * b) \<le> y" by simp
    finally show ?thesis .
  qed
  show ?case
    using earlier last cross by (simp add: sorted_wrt_append)
qed

lemma length_slice_batch:
  "length (slice images (k * BATCH_SIZE) (k * BATCH_SIZE + BATCH_SIZE)) =
     min BATCH_SIZE (length images - k * BATCH_SIZE)"
  by (simp add: slice_def)

lemma batch_count_less_iff: "k < batch_count n \<longleftrightarrow> k * BATCH_SIZE < n"
proof -
  have "k < batch_count n \<longleftrightarrow> Suc k \<le> (n + 4) div 5"
    by (simp add: batch_count_eq Suc_le_eq)
  also have "\<dots> \<longleftrightarrow> Suc k * 5 \<le> n + 4"
    by (rule less_eq_div_iff_mult_less_eq) simp
  also have "\<dots> \<longleftrightarrow> k * 5 < n"
    by simp linarith
  finally show ?thesis by (simp add: BATCH_SIZE_def)
qed

lemma in_concat_blocks:
  "x \<in> set (concat (map f [0..<m])) \<Longrightarrow> \<exists>k<m. x \<in> set (f k)"
  by auto

lemma shifted_block:
  assumes asc: "batch_local_ascending (min BATCH_SIZE (n - k * BATCH_SIZE)) response"
    and k: "k * BATCH_SIZE < n"
  shows "sorted_wrt (<) (case response of
                           BatchIndices xs \<Rightarrow> map (\<lambda>idx. idx + int (k * BATCH_SIZE)) xs
                         | _ \<Rightarrow> [])"
    and "x \<in> set (case response of
                       BatchIndices xs \<Rightarrow> map (\<lambda>idx. idx + int (k * BATCH_SIZE)) xs
                     | _ \<Rightarrow> []) \<Longrightarrow>
          int (k * BATCH_SIZE) \<le> x \<and> x < int (Suc k * BATCH_SIZE) \<and> x < int n"
proof -
  show "sorted_wrt (<) (case response of
                           BatchIndices xs \<Rightarrow> map (\<lambda>idx. idx + int (k * BATCH_SIZE)) xs
                         | _ \<Rightarrow> [])"
    using asc
    by (cases response) (simp_all add: batch_local_ascending_def sorted_wrt_map)
next
  assume x: "x \<in> set (case response of
                       BatchIndices xs \<Rightarrow> map (\<lambda>idx. idx + int (k * BATCH_SIZE)) xs
                     | _ \<Rightarrow> [])"
  then obtain xs idx where r: "response = BatchIndices xs" and idx: "idx \<in> set xs"
    and xeq: "x = idx + int (k * BATCH_SIZE)"
    by (cases response) auto
  from asc r idx have "0 \<le> idx" and "idx < int (min BATCH_SIZE (n - k * BATCH_SIZE))"
    by (simp_all add: batch_local_ascending_def list_all_iff)
  moreover have "int (min BATCH_SIZE (n - k * BATCH_SIZE)) \<le> int BATCH_SIZE"
    and "int (min BATCH_SIZE (n - k * BATCH_SIZE)) \<le> int (n - k * BATCH_SIZE)"
    by (simp_all only: of_nat_le_iff min.cobounded1 min.cobounded2)
  moreover from k have "int (n - k * BATCH_SIZE) = int n - int (k * BATCH_SIZE)"
    by (simp only: of_nat_diff less_imp_le)
  moreover have "int (Suc k * BATCH_SIZE) = int (k * BATCH_SIZE) + int BATCH_SIZE"
    by simp
  ultimately show "int (k * BATCH_SIZE) \<le> x \<and> x < int (Suc k * BATCH_SIZE) \<and> x < int n"
    unfolding xeq by linarith
qed

lemma example_backend_both_in_order: "answers_in_order example_backend_both example_pages"
  by code_simp

lemma example_backend_both_blocks:
  "concat (map (\<lambda>k. case example_backend_both k of
                       BatchIndices xs \<Rightarrow> map (\<lambda>idx. idx + int (k * BATCH_SIZE)) xs
                     | _ \<Rightarrow> [])
               [0..<batch_count (length example_pages)]) = [1, 4, 5, 7]"
  by code_simp

lemma example_single_image_in_order:
  "answers_in_order example_backend_unordered [example_image]"
  by (simp add: answers_in_order_def)

lemma example_backend_unordered_result:
  "fst (detectSchematicPages example_backend_unordered example_two_pages) = [1, 0, 0, 5]"
  by code_simp

lemma example_backend_failing_blocks:
  "concat (map (\<lambda>k. case example_backend_failing k of
                       BatchIndices xs \<Rightarrow> map (\<lambda>idx. idx + int (k * BATCH_SIZE)) xs
                     | _ \<Rightarrow> [])
               [0..<batch_count (length example_pages)]) = [5, 7]"
  by code_simp

lemma example_pages_batches:
  "map (\<lambda>k. slice example_pages (k * BATCH_SIZE) (k * BATCH_SIZE + BATCH_SIZE))
       [0..<batch_count (length example_pages)] =
     [[''p0'', ''p1'', ''p2'', ''p3'', ''p4''], [''p5'', ''p6'', ''p7'']]"
  by code_simp

lemma detect_strictly_ascending:
  assumes "answers_in_order backend images"
  shows "sorted_wrt (<) (fst (detectSchematicPages backend images))
         \<and> (\<forall>i\<in>set (fst (detectSchematicPages backend images)).
               0 \<le> i \<and> i < int (length images))"
proof (cases "length images = 1")
  case True
  then show ?thesis by (simp add: detectSchematicPages_def)
next
  case False
  let ?f = "\<lambda>k. case backend k of
                   BatchIndices xs \<Rightarrow> map (\<lambda>idx. idx + int (k * BATCH_SIZE)) xs
                 | _ \<Rightarrow> []"
  let ?m = "batch_count (length images)"
  have r: "fst (detectSchematicPages backend images) = concat (map ?f [0..<?m])"
    by (simp add: detect_closed [OF False])
  have asc: "batch_local_ascending (min BATCH_SIZE (length images - k * BATCH_SIZE)) (backend k)"
    if "k < ?m" for k
    using assms that False
    by (simp add: answers_in_order_def list_all_iff length_slice_batch)
  have strict: "sorted_wrt (<) (concat (map ?f [0..<?m]))"
  proof (rule sorted_wrt_concat_blocks [where b = BATCH_SIZE])
    fix k assume k: "k < ?m"
    then have off: "k * BATCH_SIZE < length images" by (simp add: batch_count_less_iff)
    from shifted_block(1) [OF asc [OF k] off] show "sorted_wrt (<) (?f k)" .
    fix x assume "x \<in> set (?f k)"
    from shifted_block(2) [OF asc [OF k] off this]
    show "int (k * BATCH_SIZE) \<le> x \<and> x < int (Suc k * BATCH_SIZE)" by simp
  qed
  have bound: "0 \<le> x \<and> x < int (length images)" if "x \<in> set (concat (map ?f [0..<?m]))" for x
  proof -
    from in_concat_blocks [OF that] obtain k where k: "k < ?m" and xk: "x \<in> set (?f k)"
      by blast
    from k have off: "k * BATCH_SIZE < length images" by (simp add: batch_count_less_iff)
    from shifted_block(2) [OF asc [OF k] off xk] have "int (k * BATCH_SIZE) \<le> x" and "x < int (length images)"
      by simp_all
    moreover have "0 \<le> int (k * BATCH_SIZE)" by simp
    ultimately show ?thesis by linarith
  qed
  from strict bound show ?thesis unfolding r by blast
qed

subsection \<open>Order, duplicates and range of the result\<close>

text \<open>
  Claim C1, as stated, fails: the classifier returns the indices in the order the
  backend listed them, with its repetitions, and shifted whatever their value. For two
  pages and a response listing \<open>1, 0, 0, 5\<close> the result is not sorted, has a
  duplicate, and holds \<open>5\<close>, which is no page of the document.
\<close>

theorem classifier_keeps_backend_order:
  "fst (detectSchematicPages example_backend_unordered example_two_pages) = [1, 0, 0, 5]
   \<and> \<not> sorted (fst (detectSchematicPages example_backend_unordered example_two_pages))
   \<and> \<not> distinct (fst (detectSchematicPages example_backend_unordered example_two_pages))
   \<and> \<not> list_all (\<lambda>i. i < int (length example_two_pages))
          (fst (detectSchematicPages example_backend_unordered example_two_pages))"
  unfolding example_backend_unordered_result
  by (simp add: example_two_pages_def)

text \<open>
  Claim C1, amended. The classifier neither sorts, nor removes duplicates, nor checks
  the range. For exactly one image it returns the list \<open>[0]\<close>. For any other number
  of images it returns the concatenation, in batch order, of the indices that the
  responses that parse list, each shifted by the start of its batch. When every call
  the classifier makes is answered, if the response parses, with positions of the
  batch of that call in strictly ascending order, the returned list is sorted in
  ascending order, has no duplicates, and each of its indices is at least \<open>0\<close> and
  less than the number of images.
\<close>

theorem classifier_order_from_backend:
  "(length images = 1 \<longrightarrow> fst (detectSchematicPages backend images) = [0])
   \<and> (length images \<noteq> 1 \<longrightarrow>
        fst (detectSchematicPages backend images) =
          concat (map (\<lambda>k. case backend k of
                              BatchIndices xs \<Rightarrow> map (\<lambda>idx. idx + int (k * BATCH_SIZE)) xs
                            | _ \<Rightarrow> [])
                      [0..<batch_count (length images)]))
   \<and> (answers_in_order backend images \<longrightarrow>
        sorted (fst (detectSchematicPages backend images))
        \<and> distinct (fst (detectSchematicPages backend images))
        \<and> (\<forall>i\<in>set (fst (detectSchematicPages backend images)).
              0 \<le> i \<and> i < int (length images)))"
proof (intro conjI impI)
  assume "length images = 1"
  then show "fst (detectSchematicPages backend images) = [0]"
    by (simp add: detectSchematicPages_def)
next
  assume "length images \<noteq> 1"
  then show "fst (detectSchematicPages backend images) =
          concat (map (\<lambda>k. case backend k of
                              BatchIndices xs \<Rightarrow> map (\<lambda>idx. idx + int (k * BATCH_SIZE)) xs
                            | _ \<Rightarrow> [])
                      [0..<batch_count (length images)])"
    by (simp add: detect_closed)
next
  assume ordered: "answers_in_order backend images"
  from detect_strictly_ascending [OF ordered]
  have strict: "sorted_wrt (<) (fst (detectSchematicPages backend images))"
    and range: "\<forall>i\<in>set (fst (detectSchematicPages backend images)).
                  0 \<le> i \<and> i < int (length images)"
    by blast+
  from strict show "sorted (fst (detectSchematicPages backend images))"
    by (simp only: strict_sorted_iff)
  from strict show "distinct (fst (detectSchematicPages backend images))"
    by (simp only: strict_sorted_iff)
  from range show "\<forall>i\<in>set (fst (detectSchematicPages backend images)).
                     0 \<le> i \<and> i < int (length images)" .
qed

theorem classifier_order_from_backend_witness:
  "length [example_image] = 1
   \<and> answers_in_order example_backend_unordered [example_image]
   \<and> fst (detectSchematicPages example_backend_unordered [example_image]) = [0]
   \<and> length example_pages \<noteq> 1
   \<and> answers_in_order example_backend_both example_pages
   \<and> fst (detectSchematicPages example_backend_both example_pages) = [1, 4, 5, 7]
   \<and> sorted (fst (detectSchematicPages example_backend_both example_pages))
   \<and> distinct (fst (detectSchematicPages example_backend_both example_pages))
   \<and> list_all (\<lambda>i. 0 \<le> i \<and> i < int (length example_pages))
        (fst (detectSchematicPages example_backend_both example_pages))"
proof -
  have one: "length [example_image] = 1"
    by simp
  have many: "length example_pages \<noteq> 1"
    by (simp add: example_pages_def)
  note single = classifier_order_from_backend [of "[example_image]" example_backend_unordered]
  note eight = classifier_order_from_backend [of example_pages example_backend_both]
  from single one
  have first: "fst (detectSchematicPages example_backend_unordered [example_image]) = [0]"
    by blast
  from eight many
  have "fst (detectSchematicPages example_backend_both example_pages) =
          concat (map (\<lambda>k. case example_backend_both k of
                              BatchIndices xs \<Rightarrow> map (\<lambda>idx. idx + int (k * BATCH_SIZE)) xs
                            | _ \<Rightarrow> [])
                      [0..<batch_count (length example_pages)])"
    by blast
  then have result: "fst (detectSchematicPages example_backend_both example_pages) = [1, 4, 5, 7]"
    by (simp only: example_backend_both_blocks)
  from eight example_backend_both_in_order
  have ordered: "sorted (fst (detectSchematicPages example_backend_both example_pages))
      \<and> distinct (fst (detectSchematicPages example_backend_both example_pages))
      \<and> list_all (\<lambda>i. 0 \<le> i \<and> i < int (length example_pages))
           (fst (detectSchematicPages example_backend_both example_pages))"
    unfolding list_all_iff by blast
  from one example_single_image_in_order first many example_backend_both_in_order result ordered
  show ?thesis by blast
qed

subsection \<open>A failing batch\<close>

text \<open>
  Claim C5. For any number of images other than one, the classifier sends one request
  per batch of five, whatever the responses: a batch whose call throws, whose response
  has no text or is malformed contributes nothing, and the result is the concatenation,
  in batch order, of the indices of the responses that parse, each shifted by the start
  of its batch. So every index of a good batch is in the result, whatever happens to
  the other batches.
\<close>

theorem batch_failure_isolated:
  assumes "length images \<noteq> 1"
  shows "fst (detectSchematicPages backend images) =
           concat (map (\<lambda>k. case backend k of
                               BatchIndices xs \<Rightarrow> map (\<lambda>idx. idx + int (k * BATCH_SIZE)) xs
                             | _ \<Rightarrow> [])
                       [0..<batch_count (length images)])
         \<and> snd (detectSchematicPages backend images) =
           map (\<lambda>k. slice images (k * BATCH_SIZE) (k * BATCH_SIZE + BATCH_SIZE))
               [0..<batch_count (length images)]
         \<and> (\<forall>k xs idx. k * BATCH_SIZE < length images \<and> backend k = BatchIndices xs
                 \<and> idx \<in> set xs \<longrightarrow>
               idx + int (k * BATCH_SIZE) \<in> set (fst (detectSchematicPages backend images)))"
proof (intro conjI allI impI)
  show r: "fst (detectSchematicPages backend images) =
           concat (map (\<lambda>k. case backend k of
                               BatchIndices xs \<Rightarrow> map (\<lambda>idx. idx + int (k * BATCH_SIZE)) xs
                             | _ \<Rightarrow> [])
                       [0..<batch_count (length images)])"
    by (simp add: detect_closed [OF assms])
  show "snd (detectSchematicPages backend images) =
           map (\<lambda>k. slice images (k * BATCH_SIZE) (k * BATCH_SIZE + BATCH_SIZE))
               [0..<batch_count (length images)]"
    by (simp add: detect_closed [OF assms])
  fix k xs idx
  assume h: "k * BATCH_SIZE < length images \<and> backend k = BatchIndices xs \<and> idx \<in> set xs"
  then have "k < batch_count (length images)" by (simp add: batch_count_less_iff)
  moreover from h have "idx + int (k * BATCH_SIZE) \<in>
      set (case backend k of
             BatchIndices xs \<Rightarrow> map (\<lambda>idx. idx + int (k * BATCH_SIZE)) xs
           | _ \<Rightarrow> [])"
    by simp
  ultimately show "idx + int (k * BATCH_SIZE) \<in> set (fst (detectSchematicPages backend images))"
    unfolding r by (simp only: set_concat set_map set_upt) (blast intro: atLeastLessThan_iff [THEN iffD2])
qed

theorem batch_failure_isolated_witness:
  "length example_pages \<noteq> 1
   \<and> example_backend_failing 0 = BatchThrew (Error ''503'')
   \<and> fst (detectSchematicPages example_backend_failing example_pages) = [5, 7]
   \<and> snd (detectSchematicPages example_backend_failing example_pages) =
       [[''p0'', ''p1'', ''p2'', ''p3'', ''p4''], [''p5'', ''p6'', ''p7'']]"
proof -
  have n: "length example_pages \<noteq> 1"
    by (simp add: example_pages_def)
  have failing: "example_backend_failing 0 = BatchThrew (Error ''503'')"
    by (simp add: example_backend_failing_def)
  from batch_failure_isolated [OF n, of example_backend_failing]
  have "fst (detectSchematicPages example_backend_failing example_pages) = [5, 7]"
    and "snd (detectSchematicPages example_backend_failing example_pages) =
       [[''p0'', ''p1'', ''p2'', ''p3'', ''p4''], [''p5'', ''p6'', ''p7'']]"
    by (simp_all only: example_backend_failing_blocks example_pages_batches)
  with n failing show ?thesis by blast
qed

subsection \<open>A single image\<close>

text \<open>
  Claim C9. For a sequence of exactly one page image the classifier returns the list
  \<open>[0]\<close> and sends no request to the backend: the log of classification calls is
  empty, whatever the backend would have answered.
\<close>

theorem single_image_fast_path:
  "detectSchematicPages backend [img] = ([0], [])"
  by (simp add: detectSchematicPages_def)

theorem single_image_fast_path_witness:
  "detectSchematicPages (\<lambda>k. BatchIndices [3, 1]) [example_image] = ([0], [])"
  by (rule single_image_fast_path)


section \<open>The orchestrator: facts\<close>

lemma analyze_loop_complete:
  "analyze_loop env images n indices i st = (None, st') \<Longrightarrow>
     invoked st' = invoked st @ indices
   \<and> map pageNumber (results st') = map pageNumber (results st) @ map (\<lambda>p. p + 1) indices
   \<and> map image (results st') = map image (results st) @ map (\<lambda>p. images ! nat p) indices
   \<and> (\<forall>p\<in>set indices. 0 \<le> p \<and> p < int (length images))"
proof (induction indices arbitrary: i st)
  case Nil
  then show ?case by simp
next
  case (Cons pageIdx rest)
  from Cons.prems obtain a img where
    a: "analyzeSchematicImage (extract_backend env i) (js_index images pageIdx) = Inr a"
    and img: "js_index images pageIdx = Some img"
    by (auto simp: Let_def split: sum.splits option.splits)
  from img have range: "0 \<le> pageIdx \<and> pageIdx < int (length images)" and at: "img = images ! nat pageIdx"
    by (auto simp: js_index_def split: if_splits)
  let ?st = "st\<lparr> progress := ''Analyzing Page '' @ show_int (pageIdx + 1) @ '' (''
                                   @ show_nat (i + 1) @ ''/'' @ show_nat n @ '')...'',
                    invoked := invoked st @ [pageIdx],
                    results := results st @
                       [\<lparr> page_id = randomUUID env i, pageNumber = pageIdx + 1,
                           image = img, analysis = a \<rparr>] \<rparr>"
  from Cons.prems a img have "analyze_loop env images n rest (i + 1) ?st = (None, st')"
    by (simp add: Let_def)
  from Cons.IH [OF this] range at show ?case by simp
qed

lemma analyze_loop_first_failure:
  assumes "k < length indices"
    and "\<forall>j<k. \<exists>a. analyzeSchematicImage (extract_backend env (i + j))
                       (js_index images (indices ! j)) = Inr a"
    and "analyzeSchematicImage (extract_backend env (i + k)) (js_index images (indices ! k)) =
           Inl err"
  shows "fst (analyze_loop env images n indices i st) = Some err
       \<and> invoked (snd (analyze_loop env images n indices i st)) =
           invoked st @ take (Suc k) indices
       \<and> progress (snd (analyze_loop env images n indices i st)) =
           ''Analyzing Page '' @ show_int (indices ! k + 1) @ '' (''
             @ show_nat (i + k + 1) @ ''/'' @ show_nat n @ '')...''"
  using assms
proof (induction indices arbitrary: i k st)
  case Nil
  then show ?case by simp
next
  case (Cons pageIdx rest)
  show ?case
  proof (cases k)
    case 0
    with Cons.prems(3) show ?thesis by (simp add: Let_def)
  next
    case (Suc k')
    from Cons.prems(2) Suc obtain a where
      a: "analyzeSchematicImage (extract_backend env i) (js_index images pageIdx) = Inr a"
      by fastforce
    from analyze_Inr [OF a] obtain img where img: "js_index images pageIdx = Some img"
      by blast
    have k': "k' < length rest" using Cons.prems(1) Suc by simp
    have before: "\<forall>j<k'. \<exists>a. analyzeSchematicImage (extract_backend env (Suc i + j))
                       (js_index images (rest ! j)) = Inr a"
    proof (intro allI impI)
      fix j assume "j < k'"
      then have "Suc j < k" using Suc by simp
      with Cons.prems(2) have "\<exists>a. analyzeSchematicImage (extract_backend env (i + Suc j))
                       (js_index images ((pageIdx # rest) ! Suc j)) = Inr a"
        by blast
      then show "\<exists>a. analyzeSchematicImage (extract_backend env (Suc i + j))
                       (js_index images (rest ! j)) = Inr a"
        by simp
    qed
    have at: "analyzeSchematicImage (extract_backend env (Suc i + k')) (js_index images (rest ! k')) =
           Inl err"
      using Cons.prems(3) Suc by simp
    note ih = Cons.IH [OF k' before at]
    show ?thesis
      using a img Suc by (simp add: Let_def ih)
  qed
qed

lemma status_catch_error [simp]: "status (catch_error s err) = S_error"
  by (simp add: catch_error_def)

lemma error_catch_error [simp]:
  "error (catch_error s err) =
     Some (if message err = [] then ''Failed to process file.'' else message err)"
  by (simp add: catch_error_def)

lemma pages_catch_error [simp]: "pages (catch_error s err) = pages s"
  by (simp add: catch_error_def)

lemma pages_reset [simp]: "pages (reset s) = []"
  by (simp add: reset_def)

lemma example_env_loads:
  "load_images example_env example_pdf = Inr example_pages"
  "load_images example_env_reversed example_pdf = Inr example_pages"
  "load_images example_env_second_fails example_pdf = Inr example_pages"
  "load_images example_env_silent_failure example_pdf = Inr example_pages"
  "load_images example_env_nothing_found example_pdf = Inr example_pages"
  by (simp_all add: load_images_def example_env_def example_env_reversed_def
        example_env_second_fails_def example_env_silent_failure_def
        example_env_nothing_found_def example_pdf_def)

lemma example_run_complete:
  "status (fst (handleFileSelected example_env example_pdf example_state)) = S_complete"
  by code_simp

lemma example_env_indices:
  "fst (detectSchematicPages (classify_backend example_env) example_pages) = [1, 4]"
  by code_simp

subsection \<open>A run that completes\<close>

text \<open>
  Claim C3, as stated, fails: the orchestrator walks the classifier's list as it is,
  and nothing has sorted it. When the backend lists page 4 before page 1, the run
  completes, the extractor is invoked for index 4 and then for index 1, and the page
  numbers of the result are 5, 2.
\<close>

theorem run_follows_unsorted_classifier:
  "status (fst (handleFileSelected example_env_reversed example_pdf example_state)) = S_complete
   \<and> extract_calls (snd (handleFileSelected example_env_reversed example_pdf example_state)) =
       [4, 1]
   \<and> map pageNumber
        (pages (fst (handleFileSelected example_env_reversed example_pdf example_state))) = [5, 2]
   \<and> \<not> sorted_wrt (<)
        (map pageNumber
          (pages (fst (handleFileSelected example_env_reversed example_pdf example_state))))"
proof -
  have "status (fst (handleFileSelected example_env_reversed example_pdf example_state)) =
          S_complete"
    by code_simp
  moreover
  have "extract_calls (snd (handleFileSelected example_env_reversed example_pdf example_state)) =
          [4, 1]"
    by code_simp
  moreover
  have nums: "map pageNumber
        (pages (fst (handleFileSelected example_env_reversed example_pdf example_state))) = [5, 2]"
    by code_simp
  moreover
  have "\<not> sorted_wrt (<) (map pageNumber
          (pages (fst (handleFileSelected example_env_reversed example_pdf example_state))))"
    unfolding nums by simp
  ultimately show ?thesis by blast
qed

text \<open>
  Claim C3, amended. For every run that reaches the complete state, the orchestrator
  invokes the extractor once per classified index, in the order of the classifier's
  list; the results are in the same order, each with the page number of its index plus
  one and the image at that index, every index being at least \<open>0\<close> and less than the
  number of images; and the page numbers are strictly increasing
  whenever the classifier's list is, as it is when the backend answers every batch in
  ascending order. On eight pages with the classified indices 1 and 4 the extractor is
  invoked for 1, then 4, and the page numbers are 2, 5.
\<close>

theorem completed_run_follows_classifier:
  assumes complete: "status (fst (handleFileSelected env file s0)) = S_complete"
  shows "\<exists>images. load_images env file = Inr images
      \<and> extract_calls (snd (handleFileSelected env file s0)) =
          fst (detectSchematicPages (classify_backend env) images)
      \<and> map pageNumber (pages (fst (handleFileSelected env file s0))) =
          map (\<lambda>p. p + 1) (fst (detectSchematicPages (classify_backend env) images))
      \<and> (\<forall>p\<in>set (fst (detectSchematicPages (classify_backend env) images)).
            0 \<le> p \<and> p < int (length images))
      \<and> map image (pages (fst (handleFileSelected env file s0))) =
          map (\<lambda>p. images ! nat p) (fst (detectSchematicPages (classify_backend env) images))
      \<and> map (\<lambda>r. Some (image r)) (pages (fst (handleFileSelected env file s0))) =
          map (js_index images) (fst (detectSchematicPages (classify_backend env) images))
      \<and> (sorted_wrt (<) (fst (detectSchematicPages (classify_backend env) images)) \<longrightarrow>
           sorted_wrt (<) (map pageNumber (pages (fst (handleFileSelected env file s0)))))
      \<and> (answers_in_order (classify_backend env) images \<longrightarrow>
           sorted_wrt (<) (map pageNumber (pages (fst (handleFileSelected env file s0)))))"
proof (cases "load_images env file")
  case (Inl err)
  with complete show ?thesis by (simp add: handleFileSelected_def Let_def)
next
  case (Inr images)
  let ?indices = "fst (detectSchematicPages (classify_backend env) images)"
  show ?thesis
  proof (cases "?indices = []")
    case True
    with complete Inr show ?thesis by (simp add: handleFileSelected_def Let_def)
  next
    case False
    obtain outcome st where
      looped: "analyze_loop env images (length ?indices) ?indices 0
                 \<lparr> results = [],
                   progress = ''Analyzing '' @ show_nat (length ?indices) @ '' schematic page(s)...'',
                   invoked = [] \<rparr> = (outcome, st)"
      by (cases "analyze_loop env images (length ?indices) ?indices 0
                 \<lparr> results = [],
                   progress = ''Analyzing '' @ show_nat (length ?indices) @ '' schematic page(s)...'',
                   invoked = [] \<rparr>") blast
    from complete Inr False looped have none: "outcome = None"
      by (cases outcome) (simp_all add: handleFileSelected_def Let_def)
    from analyze_loop_complete [OF looped [unfolded none]] have
      inv: "invoked st = ?indices" and
      nums: "map pageNumber (results st) = map (\<lambda>p. p + 1) ?indices" and
      imgs: "map image (results st) = map (\<lambda>p. images ! nat p) ?indices" and
      range: "\<forall>p\<in>set ?indices. 0 \<le> p \<and> p < int (length images)"
      by simp_all
    from range have "map (js_index images) ?indices = map (\<lambda>p. Some (images ! nat p)) ?indices"
      by (simp add: js_index_def)
    also have "\<dots> = map Some (map image (results st))"
      by (simp add: imgs)
    finally have opts: "map (\<lambda>r. Some (image r)) (results st) = map (js_index images) ?indices"
      by (simp add: comp_def)
    have run: "extract_calls (snd (handleFileSelected env file s0)) = invoked st"
      "pages (fst (handleFileSelected env file s0)) = results st"
      using Inr False looped none by (simp_all add: handleFileSelected_def Let_def)
    have order: "sorted_wrt (<) (map (\<lambda>p. p + 1) ?indices)" if "sorted_wrt (<) ?indices"
      using that by (simp only: sorted_wrt_map add_less_cancel_right)
    have "sorted_wrt (<) ?indices" if "answers_in_order (classify_backend env) images"
      using detect_strictly_ascending [OF that] by blast
    with order have order': "sorted_wrt (<) (map (\<lambda>p. p + 1) ?indices)"
      if "answers_in_order (classify_backend env) images"
      using that by blast
    show ?thesis
      using Inr inv nums imgs range opts order order' by (simp add: run)
  qed
qed

theorem completed_run_follows_classifier_witness:
  "status (fst (handleFileSelected example_env example_pdf example_state)) = S_complete
   \<and> extract_calls (snd (handleFileSelected example_env example_pdf example_state)) = [1, 4]
   \<and> map pageNumber (pages (fst (handleFileSelected example_env example_pdf example_state))) =
       [2, 5]
   \<and> map image (pages (fst (handleFileSelected example_env example_pdf example_state))) =
       [''p1'', ''p4'']
   \<and> sorted_wrt (<)
        (map pageNumber (pages (fst (handleFileSelected example_env example_pdf example_state))))"
proof -
  from completed_run_follows_classifier [OF example_run_complete] obtain images where
    l: "load_images example_env example_pdf = Inr images" and
    rest: "extract_calls (snd (handleFileSelected example_env example_pdf example_state)) =
          fst (detectSchematicPages (classify_backend example_env) images)"
      "map pageNumber (pages (fst (handleFileSelected example_env example_pdf example_state))) =
          map (\<lambda>p. p + 1) (fst (detectSchematicPages (classify_backend example_env) images))"
      "map image (pages (fst (handleFileSelected example_env example_pdf example_state))) =
          map (\<lambda>p. images ! nat p)
            (fst (detectSchematicPages (classify_backend example_env) images))"
    by blast
  from l have images: "images = example_pages"
    by (simp add: example_env_loads)
  from rest show ?thesis
    unfolding images example_env_indices
    by (simp add: example_run_complete example_pages_def)
qed

subsection \<open>A page whose extraction fails\<close>

lemma example_second_fails_indices:
  "fst (detectSchematicPages (classify_backend example_env_second_fails) example_pages) = [1, 4]"
  by code_simp

lemma example_second_fails_first:
  "analyzeSchematicImage (extract_backend example_env_second_fails 0)
     (js_index example_pages
        (fst (detectSchematicPages (classify_backend example_env_second_fails) example_pages) ! 0)) =
     Inr example_analysis"
  by code_simp

lemma example_second_fails_second:
  "analyzeSchematicImage (extract_backend example_env_second_fails 1)
     (js_index example_pages
        (fst (detectSchematicPages (classify_backend example_env_second_fails) example_pages) ! 1)) =
     Inl (Error ''quota exceeded'')"
  by code_simp

text \<open>
  Claim C4, as stated, fails where the failure has an empty message: the error state
  then carries the fixed text \<open>Failed to process file.\<close> in its place.
\<close>

theorem empty_failure_message_replaced:
  "analyzeSchematicImage (extract_backend example_env_silent_failure 1) (js_index example_pages 4) =
     Inl (Error [])
   \<and> message (Error []) = []
   \<and> status (fst (handleFileSelected example_env_silent_failure example_pdf example_state)) =
       S_error
   \<and> error (fst (handleFileSelected example_env_silent_failure example_pdf example_state)) =
       Some ''Failed to process file.''
   \<and> error (fst (handleFileSelected example_env_silent_failure example_pdf example_state)) \<noteq>
       Some (message (Error []))"
proof -
  have "analyzeSchematicImage (extract_backend example_env_silent_failure 1)
          (js_index example_pages 4) = Inl (Error [])"
    by code_simp
  moreover
  have "status (fst (handleFileSelected example_env_silent_failure example_pdf example_state)) =
          S_error"
    by code_simp
  moreover
  have e: "error (fst (handleFileSelected example_env_silent_failure example_pdf example_state)) =
          Some ''Failed to process file.''"
    by code_simp
  moreover
  have "error (fst (handleFileSelected example_env_silent_failure example_pdf example_state)) \<noteq>
          Some (message (Error []))"
    unfolding e by simp
  ultimately show ?thesis by simp
qed

text \<open>
  Claim C4, amended. When the extraction of the page at position \<open>k\<close> of the
  classified list fails and the extractions before it succeeded, the run ends in the
  error state, carrying the failure's message, or the text \<open>Failed to process file.\<close>
  when that message is empty; the page list of the state is empty, so that no page
  analysed before the failure is shown, nor any page of an earlier run; and the extractor
  was invoked for the first \<open>k + 1\<close> indices and no further.
\<close>

theorem failed_extraction_aborts_run:
  assumes images: "load_images env file = Inr images"
    and k: "k < length (fst (detectSchematicPages (classify_backend env) images))"
    and before: "\<forall>j<k. \<exists>a. analyzeSchematicImage (extract_backend env j)
                   (js_index images (fst (detectSchematicPages (classify_backend env) images) ! j)) =
                     Inr a"
    and fails: "analyzeSchematicImage (extract_backend env k)
                  (js_index images (fst (detectSchematicPages (classify_backend env) images) ! k)) =
                    Inl err"
  shows "status (fst (handleFileSelected env file s0)) = S_error
       \<and> error (fst (handleFileSelected env file s0)) =
           Some (if message err = [] then ''Failed to process file.'' else message err)
       \<and> pages (fst (handleFileSelected env file s0)) = []
       \<and> extract_calls (snd (handleFileSelected env file s0)) =
           take (Suc k) (fst (detectSchematicPages (classify_backend env) images))"
proof -
  let ?indices = "fst (detectSchematicPages (classify_backend env) images)"
  let ?st0 = "\<lparr> results = [],
                progress = ''Analyzing '' @ show_nat (length ?indices) @ '' schematic page(s)...'',
                invoked = [] \<rparr>"
  from k have nonempty: "?indices \<noteq> []" by auto
  have "fst (analyze_loop env images (length ?indices) ?indices 0 ?st0) = Some err
       \<and> invoked (snd (analyze_loop env images (length ?indices) ?indices 0 ?st0)) =
           invoked ?st0 @ take (Suc k) ?indices"
    using analyze_loop_first_failure [of k ?indices env 0 images err "length ?indices" ?st0]
      k before fails by simp
  then have out: "fst (analyze_loop env images (length ?indices) ?indices 0 ?st0) = Some err"
    and inv: "invoked (snd (analyze_loop env images (length ?indices) ?indices 0 ?st0)) =
           take (Suc k) ?indices"
    by simp_all
  show ?thesis
    using images nonempty out inv by (simp add: handleFileSelected_def Let_def)
qed

theorem failed_extraction_aborts_run_witness:
  "status (fst (handleFileSelected example_env_second_fails example_pdf example_state)) = S_error
   \<and> error (fst (handleFileSelected example_env_second_fails example_pdf example_state)) =
       Some ''quota exceeded''
   \<and> pages (fst (handleFileSelected example_env_second_fails example_pdf example_state)) = []
   \<and> extract_calls (snd (handleFileSelected example_env_second_fails example_pdf example_state)) =
       [1, 4]
   \<and> pages example_state \<noteq> []"
proof -
  have k: "1 < length (fst (detectSchematicPages (classify_backend example_env_second_fails)
                              example_pages))"
    by (simp add: example_second_fails_indices)
  have before: "\<forall>j<1. \<exists>a. analyzeSchematicImage (extract_backend example_env_second_fails j)
      (js_index example_pages
         (fst (detectSchematicPages (classify_backend example_env_second_fails) example_pages) ! j)) =
      Inr a"
    using example_second_fails_first by auto
  from failed_extraction_aborts_run
         [OF example_env_loads(3) k before example_second_fails_second, of example_state]
  show ?thesis
    by (simp add: example_second_fails_indices example_state_def)
qed

subsection \<open>No page classified\<close>

lemma example_nothing_found_indices:
  "fst (detectSchematicPages (classify_backend example_env_nothing_found) example_pages) = []"
  by code_simp

lemma example_nothing_found_calls:
  "snd (detectSchematicPages (classify_backend example_env_nothing_found) example_pages) =
     [[''p0'', ''p1'', ''p2'', ''p3'', ''p4''], [''p5'', ''p6'', ''p7'']]"
  by code_simp

text \<open>
  Claim C7. When the classifier returns the empty list, the run ends in the error
  state with the message \<open>No schematics or wiring diagrams detected in this file.\<close>;
  the page list of the state is empty; the extractor is not invoked; and the
  classification has been run once, its calls being those of the one pass.
\<close>

theorem no_schematics_is_terminal_error:
  assumes images: "load_images env file = Inr images"
    and none_found: "fst (detectSchematicPages (classify_backend env) images) = []"
  shows "status (fst (handleFileSelected env file s0)) = S_error
       \<and> error (fst (handleFileSelected env file s0)) =
           Some ''No schematics or wiring diagrams detected in this file.''
       \<and> pages (fst (handleFileSelected env file s0)) = []
       \<and> extract_calls (snd (handleFileSelected env file s0)) = []
       \<and> classify_calls (snd (handleFileSelected env file s0)) =
           snd (detectSchematicPages (classify_backend env) images)"
proof -
  obtain indices calls where
    d: "detectSchematicPages (classify_backend env) images = (indices, calls)"
    by (cases "detectSchematicPages (classify_backend env) images") blast
  with none_found have "indices = []" by simp
  with images d show ?thesis by (simp add: handleFileSelected_def Let_def)
qed

theorem no_schematics_is_terminal_error_witness:
  "status (fst (handleFileSelected example_env_nothing_found example_pdf example_state)) = S_error
   \<and> error (fst (handleFileSelected example_env_nothing_found example_pdf example_state)) =
       Some ''No schematics or wiring diagrams detected in this file.''
   \<and> pages (fst (handleFileSelected example_env_nothing_found example_pdf example_state)) = []
   \<and> extract_calls (snd (handleFileSelected example_env_nothing_found example_pdf example_state)) =
       []
   \<and> classify_calls (snd (handleFileSelected example_env_nothing_found example_pdf example_state)) =
       [[''p0'', ''p1'', ''p2'', ''p3'', ''p4''], [''p5'', ''p6'', ''p7'']]"
  using no_schematics_is_terminal_error
          [OF example_env_loads(5) example_nothing_found_indices, of example_state]
  by (simp only: example_nothing_found_calls)


section \<open>The component table: facts\<close>

lemma designator_set_field:
  "field \<noteq> F_designator \<Longrightarrow> designator (set_field field v c) = designator c"
  by (cases field) simp_all

lemma map_update_same: "i < length cs \<Longrightarrow> (map f cs)[i := f (cs ! i)] = map f cs"
  by (simp add: list_eq_iff_nth_eq nth_list_update)

lemma designators_handleChange_other:
  assumes "handleChange cs i field v = Some cs'" and "field \<noteq> F_designator"
  shows "map designator cs' = map designator cs"
  using assms
  by (auto simp: handleChange_def map_update designator_set_field map_update_same
           split: if_splits)

lemma designators_handleChange_designator:
  assumes "handleChange cs i F_designator v = Some cs'"
  shows "map designator cs' = (map designator cs)[i := Some v]" and "i < length cs"
  using assms by (auto simp: handleChange_def map_update split: if_splits)

lemma distinct_update_iff:
  assumes "distinct xs" and "i < length xs"
  shows "distinct (xs[i := a]) \<longleftrightarrow> (\<forall>j<length xs. j \<noteq> i \<longrightarrow> xs ! j \<noteq> a)"
proof
  assume d: "distinct (xs[i := a])"
  show "\<forall>j<length xs. j \<noteq> i \<longrightarrow> xs ! j \<noteq> a"
  proof (intro allI impI)
    fix j assume j: "j < length xs" "j \<noteq> i"
    from d j assms(2) have "xs[i := a] ! j \<noteq> xs[i := a] ! i"
      by (simp add: nth_eq_iff_index_eq del: nth_list_update_eq nth_list_update_neq)
    with j assms(2) show "xs ! j \<noteq> a" by simp
  qed
next
  assume other: "\<forall>j<length xs. j \<noteq> i \<longrightarrow> xs ! j \<noteq> a"
  have "a \<notin> set xs - {xs ! i}"
  proof
    assume "a \<in> set xs - {xs ! i}"
    then obtain j where "j < length xs" "xs ! j = a" "xs ! j \<noteq> xs ! i"
      by (auto simp: in_set_conv_nth)
    with other show False by auto
  qed
  with assms(1) show "distinct (xs[i := a])" by (rule distinct_list_update)
qed

lemma designators_handleDelete:
  "map designator (handleDelete cs i) =
     map (designator \<circ> snd) (filter (\<lambda>(j, c). j \<noteq> i) (enumerate 0 cs))"
  by (simp add: handleDelete_def)

lemma distinct_handleDelete:
  assumes "distinct (map designator cs)"
  shows "distinct (map designator (handleDelete cs i))"
proof -
  have "map (designator \<circ> snd) (enumerate 0 cs) = map designator cs"
    by (simp flip: map_map)
  with assms have "distinct (map (designator \<circ> snd) (enumerate 0 cs))" by simp
  then show ?thesis
    unfolding designators_handleDelete by (rule distinct_map_filter)
qed

lemma example_capacitors_designators:
  "map designator example_capacitors = [Some ''C1'', Some ''C2'']"
  "map designator (handleDelete example_capacitors 0) = [Some ''C2'']"
  "map designator (handleAdd (handleDelete example_capacitors 0)) = [Some ''C2'', Some ''C2'']"
  "map_option (map designator) (handleChange example_capacitors 1 F_designator ''C1'') =
     Some [Some ''C1'', Some ''C1'']"
  by code_simp+

text \<open>
  Claim C8, as stated, fails: nothing keeps the designators of a page apart. After the
  first of the capacitors \<open>C1\<close>, \<open>C2\<close> is deleted, adding a component names it
  \<open>C2\<close>, from the length of the list, and the page has two components \<open>C2\<close>;
  and the designator of a row can be typed over with that of another row.
\<close>

theorem add_after_delete_repeats_designator:
  "distinct (map designator example_capacitors)
   \<and> distinct (map designator (handleDelete example_capacitors 0))
   \<and> map designator (handleAdd (handleDelete example_capacitors 0)) = [Some ''C2'', Some ''C2'']
   \<and> \<not> distinct (map designator (handleAdd (handleDelete example_capacitors 0)))
   \<and> map_option (map designator) (handleChange example_capacitors 1 F_designator ''C1'') =
       Some [Some ''C1'', Some ''C1'']"
  unfolding example_capacitors_designators by simp

text \<open>
  Claim C8, amended. On a page whose designators are unique, deleting a component keeps
  them unique, and so does editing the type, the value, the notes or the icon of a
  component. Editing a designator keeps them unique exactly when no other component of
  the page has the new designator, and adding a component keeps them unique exactly
  when no component has the designator \<open>C\<close> followed by the new length of the list. The
  code checks neither.
\<close>

theorem component_edits_and_designators:
  assumes "distinct (map designator cs)"
  shows "distinct (map designator (handleDelete cs i))
       \<and> (\<forall>cs'. handleChange cs i field v = Some cs' \<and> field \<noteq> F_designator \<longrightarrow>
             distinct (map designator cs'))
       \<and> (\<forall>cs'. handleChange cs i F_designator v = Some cs' \<longrightarrow>
             (distinct (map designator cs') \<longleftrightarrow>
                (\<forall>j<length cs. j \<noteq> i \<longrightarrow> designator (cs ! j) \<noteq> Some v)))
       \<and> (distinct (map designator (handleAdd cs)) \<longleftrightarrow>
             Some (''C'' @ show_nat (length cs + 1)) \<notin> set (map designator cs))"
proof (intro conjI allI impI)
  show "distinct (map designator (handleDelete cs i))"
    using assms by (rule distinct_handleDelete)
next
  fix cs'
  assume "handleChange cs i field v = Some cs' \<and> field \<noteq> F_designator"
  then have "map designator cs' = map designator cs"
    by (blast intro: designators_handleChange_other)
  with assms show "distinct (map designator cs')" by simp
next
  fix cs'
  assume h: "handleChange cs i F_designator v = Some cs'"
  note upd = designators_handleChange_designator [OF h]
  from distinct_update_iff [of "map designator cs" i "Some v"] assms upd(2)
  show "distinct (map designator cs') \<longleftrightarrow>
          (\<forall>j<length cs. j \<noteq> i \<longrightarrow> designator (cs ! j) \<noteq> Some v)"
    unfolding upd(1) by simp
next
  show "distinct (map designator (handleAdd cs)) \<longleftrightarrow>
          Some (''C'' @ show_nat (length cs + 1)) \<notin> set (map designator cs)"
    using assms by (simp add: handleAdd_def)
qed

theorem component_edits_and_designators_witness:
  "distinct (map designator example_components)
   \<and> distinct (map designator (handleDelete example_components 1))
   \<and> (\<exists>cs'. handleChange example_components 1 F_notes ''checked'' = Some cs'
          \<and> distinct (map designator cs'))
   \<and> (\<exists>cs'. handleChange example_components 1 F_designator ''R7'' = Some cs'
          \<and> distinct (map designator cs'))
   \<and> distinct (map designator (handleAdd example_components))"
proof -
  have d: "distinct (map designator example_components)"
    by (simp add: example_components_def)
  have len: "1 < length example_components"
    by (simp add: example_components_def)
  have free: "\<forall>j<length example_components. j \<noteq> 1 \<longrightarrow>
                designator (example_components ! j) \<noteq> Some ''R7''"
    by (auto simp: example_components_def less_Suc_eq)
  have fresh: "Some (''C'' @ show_nat (length example_components + 1)) \<notin>
                 set (map designator example_components)"
    by code_simp
  obtain cs1 where c1: "handleChange example_components 1 F_notes ''checked'' = Some cs1"
    using len by (simp add: handleChange_def)
  obtain cs2 where c2: "handleChange example_components 1 F_designator ''R7'' = Some cs2"
    using len by (simp add: handleChange_def)
  from component_edits_and_designators [OF d, of 1 F_notes "''checked''"] c1
  have del: "distinct (map designator (handleDelete example_components 1))"
    and note_edit: "distinct (map designator cs1)"
    and add: "distinct (map designator (handleAdd example_components))"
    using fresh by simp_all
  from component_edits_and_designators [OF d, of 1 F_notes "''R7''"] c2 free
  have rename: "distinct (map designator cs2)"
    by blast
  from d del c1 note_edit c2 rename add show ?thesis by blast
qed

end
